theory Spec2Isabelle
  imports Complex_Main "HOL-Library.Sublist" "HOL-Library.Char_ord" "HOL-Library.List_Lexorder"
begin

section \<open>Data model\<close>

text \<open>
  The two entities of \<^verbatim>\<open>@/data/mockData\<close>. Both carry a field \<^verbatim>\<open>id\<close>; the
  selectors are named \<open>c_id\<close> and \<open>a_id\<close>. Timestamps are the strings produced by
  \<^verbatim>\<open>new Date().toISOString()\<close>; that rendering is injective on the millisecond
  time value, so a timestamp is modelled by the time value itself. The declaration of
  \<^verbatim>\<open>Address\<close> is not part of the sources at hand: the fields the code reads are
  spelled out; the remaining ones are \<open>rest\<close>, a map from the names of the fields that
  are present to their values, of a type \<open>'d\<close>.
\<close>

record customer =
  c_id :: string
  firstName :: string
  lastName :: string
  phoneNumber :: string
  createdAt :: nat
  updatedAt :: nat

record 'd address =
  a_id :: string
  customerId :: string
  city :: string
  state :: string
  isDefault :: bool
  rest :: "string \<rightharpoonup> 'd"

text \<open>
  \<^verbatim>\<open>Omit<Customer, 'id' | 'createdAt' | 'updatedAt'>\<close> and \<^verbatim>\<open>Omit<Address, 'id'>\<close>:
  what the two forms hand to the save handlers.
\<close>

record customerData =
  cd_firstName :: string
  cd_lastName :: string
  cd_phoneNumber :: string

record 'd addressData =
  ad_customerId :: string
  ad_city :: string
  ad_state :: string
  ad_isDefault :: bool
  ad_rest :: "string \<rightharpoonup> 'd"

text \<open>
  An object that holds any part of these fields: a field is \<open>None\<close> when the object has
  no such key. Spreading such an object over an entity, \<^verbatim>\<open>{ ...c, ...data }\<close>, replaces
  the fields whose keys it has and keeps the others.
\<close>

record customerPatch =
  p_firstName :: "string option"
  p_lastName :: "string option"
  p_phoneNumber :: "string option"

record 'd addressPatch =
  ap_customerId :: "string option"
  ap_city :: "string option"
  ap_state :: "string option"
  ap_isDefault :: "bool option"
  ap_rest :: "string \<rightharpoonup> 'd"

definition patchOfCustomerData :: "customerData \<Rightarrow> customerPatch" where
  "patchOfCustomerData d =
     \<lparr>p_firstName = Some (cd_firstName d), p_lastName = Some (cd_lastName d),
      p_phoneNumber = Some (cd_phoneNumber d)\<rparr>"

definition patchOfAddressData :: "'d addressData \<Rightarrow> 'd addressPatch" where
  "patchOfAddressData d =
     \<lparr>ap_customerId = Some (ad_customerId d), ap_city = Some (ad_city d),
      ap_state = Some (ad_state d), ap_isDefault = Some (ad_isDefault d),
      ap_rest = ad_rest d\<rparr>"

section \<open>Library functions of the host language\<close>

text \<open>
  Strings are lists of characters. \<^verbatim>\<open>String.prototype.toLowerCase\<close> is a function of
  the host, on whole strings; it is not defined here. Every definition that calls it takes
  it as its first argument, \<open>lower\<close>, and every theorem about such a definition holds
  for any function in its place.

  On a string of ASCII characters the host's function folds the letters A to Z and leaves
  every other character as it is. \<open>asciiLowerCase\<close> is that function; it stands for
  \<open>lower\<close> only where the examples below are evaluated, all of them on ASCII strings.
\<close>

definition asciiLowerCaseChar :: "char \<Rightarrow> char" where
  "asciiLowerCaseChar c =
     (if CHR ''A'' \<le> c \<and> c \<le> CHR ''Z'' then char_of (of_char c + (32::nat)) else c)"

definition asciiLowerCase :: "string \<Rightarrow> string" where
  "asciiLowerCase s = map asciiLowerCaseChar s"

text \<open>\<^verbatim>\<open>s.includes(t)\<close>: \<open>t\<close> starts at some position of \<open>s\<close>.\<close>

fun str_includes :: "string \<Rightarrow> string \<Rightarrow> bool" where
  "str_includes [] t = (t = [])"
| "str_includes (c # cs) t = (prefix t (c # cs) \<or> str_includes cs t)"

text \<open>\<^verbatim>\<open>[...new Set(xs)]\<close>: the elements in the order of their first occurrence.\<close>

definition newSet :: "'a list \<Rightarrow> 'a list" where
  "newSet xs = foldl (\<lambda>s x. if x \<in> set s then s else s @ [x]) [] xs"

text \<open>
  \<^verbatim>\<open>xs.slice(start, fin)\<close> on integers: a negative bound counts from the end, both
  bounds are clamped to the array, and an empty range gives the empty array.
\<close>

definition slice :: "int \<Rightarrow> int \<Rightarrow> 'a list \<Rightarrow> 'a list" where
  "slice start fin xs =
     (let len = int (length xs);
          k = (if start < 0 then max (len + start) 0 else min start len);
          final = (if fin < 0 then max (len + fin) 0 else min fin len)
      in take (nat (final - k)) (drop (nat k) xs))"

text \<open>\<^verbatim>\<open>Math.ceil(a / b)\<close> on array lengths, where the quotient is exact enough.\<close>

definition Math_ceil_div :: "nat \<Rightarrow> nat \<Rightarrow> int" where
  "Math_ceil_div a b = \<lceil>real a / real b\<rceil>"

text \<open>\<^verbatim>\<open>n.toString()\<close> of a non-negative integer: its decimal digits.\<close>

definition digitChar :: "nat \<Rightarrow> char" where
  "digitChar d = char_of (48 + d)"

fun toString :: "nat \<Rightarrow> string" where
  "toString n = (if n < 10 then [digitChar n] else toString (n div 10) @ [digitChar (n mod 10)])"

section \<open>Mutations of the two collections\<close>

text \<open>
  The updaters the handlers pass to \<^verbatim>\<open>setCustomers\<close> and \<^verbatim>\<open>setAddresses\<close>.
  Wherever a handler reads the clock, \<open>reads k\<close> is the value of the \<open>k\<close>-th read of the
  clock made while that handler runs, counted from 0.

  \<^verbatim>\<open>{ ...c, ...customerData, updatedAt: new Date().toISOString() }\<close>: the customer with
  the keys of the data written over it, stamped with the clock.
\<close>

definition mergeCustomer :: "customer \<Rightarrow> customerPatch \<Rightarrow> nat \<Rightarrow> customer" where
  "mergeCustomer c customerData now =
     c\<lparr>firstName := (case p_firstName customerData of Some v \<Rightarrow> v | None \<Rightarrow> firstName c),
       lastName := (case p_lastName customerData of Some v \<Rightarrow> v | None \<Rightarrow> lastName c),
       phoneNumber := (case p_phoneNumber customerData of Some v \<Rightarrow> v | None \<Rightarrow> phoneNumber c),
       updatedAt := now\<rparr>"

text \<open>
  \<^verbatim>\<open>prev.map(c => c.id === id
     ? { ...c, ...customerData, updatedAt: new Date().toISOString() } : c)\<close>,
  written twice in the source, once per screen, with the same body. The callback runs on
  the customers in their order and reads the clock once for every customer whose id is the
  given one; \<open>k\<close> is the number of reads made before the first element of \<open>prev\<close>.
\<close>

fun updateCustomer ::
  "string \<Rightarrow> customerPatch \<Rightarrow> (nat \<Rightarrow> nat) \<Rightarrow> nat \<Rightarrow> customer list \<Rightarrow> customer list" where
  "updateCustomer ident customerData reads k [] = []"
| "updateCustomer ident customerData reads k (c # prev) =
     (if c_id c = ident
      then mergeCustomer c customerData (reads k)
             # updateCustomer ident customerData reads (Suc k) prev
      else c # updateCustomer ident customerData reads k prev)"

text \<open>
  \<^verbatim>\<open>{ id: Date.now().toString(), ...customerData,
     createdAt: new Date().toISOString(), updatedAt: new Date().toISOString() }\<close>.
  The object literal reads the clock three times, in this order.
\<close>

definition newCustomer :: "customerData \<Rightarrow> (nat \<Rightarrow> nat) \<Rightarrow> customer" where
  "newCustomer customerData reads =
     \<lparr>c_id = toString (reads 0),
      firstName = cd_firstName customerData,
      lastName = cd_lastName customerData,
      phoneNumber = cd_phoneNumber customerData,
      createdAt = reads 1,
      updatedAt = reads 2\<rparr>"

text \<open>
  \<^verbatim>\<open>{ ...addr, ...addressData }\<close>: the address with the keys of the data written over
  it; the id is not among them.
\<close>

definition mergeAddress :: "'d address \<Rightarrow> 'd addressPatch \<Rightarrow> 'd address" where
  "mergeAddress addr addressData =
     \<lparr>a_id = a_id addr,
      customerId = (case ap_customerId addressData of Some v \<Rightarrow> v | None \<Rightarrow> customerId addr),
      city = (case ap_city addressData of Some v \<Rightarrow> v | None \<Rightarrow> city addr),
      state = (case ap_state addressData of Some v \<Rightarrow> v | None \<Rightarrow> state addr),
      isDefault = (case ap_isDefault addressData of Some v \<Rightarrow> v | None \<Rightarrow> isDefault addr),
      rest = rest addr ++ ap_rest addressData\<rparr>"

text \<open>\<^verbatim>\<open>prev.map(addr => addr.id === editingAddress.id ? { ...addr, ...addressData } : addr)\<close>\<close>

definition updateAddress :: "string \<Rightarrow> 'd addressPatch \<Rightarrow> 'd address list \<Rightarrow> 'd address list" where
  "updateAddress ident addressData prev =
     map (\<lambda>addr. if a_id addr = ident then mergeAddress addr addressData else addr) prev"

text \<open>\<^verbatim>\<open>{ id: Date.now().toString(), ...addressData }\<close>\<close>

definition newAddress :: "'d addressData \<Rightarrow> (nat \<Rightarrow> nat) \<Rightarrow> 'd address" where
  "newAddress addressData reads =
     \<lparr>a_id = toString (reads 0),
      customerId = ad_customerId addressData,
      city = ad_city addressData,
      state = ad_state addressData,
      isDefault = ad_isDefault addressData,
      rest = ad_rest addressData\<rparr>"

text \<open>
  The updater that \<^verbatim>\<open>handleSetDefaultAddress\<close> passes to \<^verbatim>\<open>setAddresses\<close>:
  \<^verbatim>\<open>prev.map(addr => ({...addr, isDefault: addr.customerId === customer.id
     ? addr.id === addressId : addr.isDefault}))\<close>.
\<close>

definition setDefaultAddress :: "string \<Rightarrow> string \<Rightarrow> 'd address list \<Rightarrow> 'd address list" where
  "setDefaultAddress customer_id addressId prev =
     map (\<lambda>addr. addr\<lparr>isDefault :=
            (if customerId addr = customer_id then a_id addr = addressId else isDefault addr)\<rparr>) prev"

text \<open>The default addresses of one customer, in collection order.\<close>

definition defaultsOf :: "string \<Rightarrow> 'd address list \<Rightarrow> 'd address list" where
  "defaultsOf customer_id addrs = filter (\<lambda>b. customerId b = customer_id \<and> isDefault b) addrs"

section \<open>The detail screen\<close>

text \<open>
  The state of \<^verbatim>\<open>CustomerDetail\<close>: its five \<^verbatim>\<open>useState\<close> cells, the titles of
  the notifications it has raised, and the route it has navigated to. A handler is a
  function from the state before the event to the state after it. The handlers exist
  only while the customer of the route is found; they take it as \<open>customer\<close>. The save
  handlers take the data of their form, which has every field of its declared type.
\<close>

record 'd detail_state =
  d_customers :: "customer list"
  d_addresses :: "'d address list"
  showAddressForm :: bool
  d_showCustomerForm :: bool
  editingAddress :: "'d address option"
  d_toasts :: "string list"
  navigatedTo :: "string option"

definition CustomerDetail_customer :: "string \<Rightarrow> 'd detail_state \<Rightarrow> customer option" where
  "CustomerDetail_customer route_id s = List.find (\<lambda>c. c_id c = route_id) (d_customers s)"

definition customerAddresses :: "string \<Rightarrow> 'd detail_state \<Rightarrow> 'd address list" where
  "customerAddresses route_id s = filter (\<lambda>addr. customerId addr = route_id) (d_addresses s)"

definition CustomerDetail_handleUpdateCustomer ::
  "customer \<Rightarrow> customerData \<Rightarrow> (nat \<Rightarrow> nat) \<Rightarrow> 'd detail_state \<Rightarrow> 'd detail_state" where
  "CustomerDetail_handleUpdateCustomer customer customerData reads s =
     s\<lparr>d_customers :=
         updateCustomer (c_id customer) (patchOfCustomerData customerData) reads 0 (d_customers s),
       d_showCustomerForm := False,
       d_toasts := d_toasts s @ [''Customer Updated'']\<rparr>"

text \<open>\<open>confirmed\<close> is the answer of \<^verbatim>\<open>window.confirm\<close>.\<close>

definition CustomerDetail_handleDeleteCustomer :: "bool \<Rightarrow> 'd detail_state \<Rightarrow> 'd detail_state" where
  "CustomerDetail_handleDeleteCustomer confirmed s =
     (if confirmed
      then s\<lparr>d_toasts := d_toasts s @ [''Customer Deleted''], navigatedTo := Some ''/''\<rparr>
      else s)"

definition handleSaveAddress ::
  "'d addressData \<Rightarrow> (nat \<Rightarrow> nat) \<Rightarrow> 'd detail_state \<Rightarrow> 'd detail_state" where
  "handleSaveAddress addressData reads s =
     (case editingAddress s of
        Some editing \<Rightarrow>
          s\<lparr>d_addresses :=
              updateAddress (a_id editing) (patchOfAddressData addressData) (d_addresses s),
            d_toasts := d_toasts s @ [''Address Updated''],
            showAddressForm := False,
            editingAddress := None\<rparr>
      | None \<Rightarrow>
          s\<lparr>d_addresses := d_addresses s @ [newAddress addressData reads],
            d_toasts := d_toasts s @ [''Address Added''],
            showAddressForm := False,
            editingAddress := None\<rparr>)"

definition handleEditAddress :: "'d address \<Rightarrow> 'd detail_state \<Rightarrow> 'd detail_state" where
  "handleEditAddress addr s = s\<lparr>editingAddress := Some addr, showAddressForm := True\<rparr>"

definition handleDeleteAddress :: "string \<Rightarrow> bool \<Rightarrow> 'd detail_state \<Rightarrow> 'd detail_state" where
  "handleDeleteAddress addressId confirmed s =
     (if confirmed
      then s\<lparr>d_addresses := filter (\<lambda>addr. a_id addr \<noteq> addressId) (d_addresses s),
             d_toasts := d_toasts s @ [''Address Deleted'']\<rparr>
      else s)"

definition handleSetDefaultAddress :: "customer \<Rightarrow> string \<Rightarrow> 'd detail_state \<Rightarrow> 'd detail_state" where
  "handleSetDefaultAddress customer addressId s =
     s\<lparr>d_addresses := setDefaultAddress (c_id customer) addressId (d_addresses s),
       d_toasts := d_toasts s @ [''Default Address Updated'']\<rparr>"

section \<open>The list screen\<close>

record 'd list_state =
  customers :: "customer list"
  addresses :: "'d address list"
  searchTerm :: string
  cityFilter :: string
  stateFilter :: string
  showCustomerForm :: bool
  editingCustomer :: "customer option"
  currentPage :: int
  toasts :: "string list"

text \<open>
  The initial state; \<^verbatim>\<open>mockCustomers\<close> and \<^verbatim>\<open>mockAddresses\<close> are declared in
  \<^verbatim>\<open>@/data/mockData\<close> and are parameters here.
\<close>

definition CustomerList_init :: "customer list \<Rightarrow> 'd address list \<Rightarrow> 'd list_state" where
  "CustomerList_init mockCustomers mockAddresses =
     \<lparr>customers = mockCustomers, addresses = mockAddresses,
      searchTerm = '''', cityFilter = '''', stateFilter = '''',
      showCustomerForm = False, editingCustomer = None, currentPage = 1, toasts = []\<rparr>"

definition itemsPerPage :: nat where
  "itemsPerPage = 6"

subsection \<open>Derived values\<close>

text \<open>
  \<^verbatim>\<open>[...new Set(addresses.map(addr => addr.city))].sort()\<close>; the default
  comparison of \<^verbatim>\<open>sort\<close> orders strings by their character codes.
\<close>

definition cities :: "'d address list \<Rightarrow> string list" where
  "cities addrs = sort (newSet (map city addrs))"

definition states :: "'d address list \<Rightarrow> string list" where
  "states addrs = sort (newSet (map state addrs))"

definition filterCustomers ::
  "(string \<Rightarrow> string) \<Rightarrow> customer list \<Rightarrow> 'd address list \<Rightarrow> string \<Rightarrow> string \<Rightarrow> string
     \<Rightarrow> customer list" where
  "filterCustomers lower custs addrs search cityF stateF =
     filter (\<lambda>customer.
       let matchesSearch = (search = '''' \<or>
             str_includes (lower (firstName customer)) (lower search) \<or>
             str_includes (lower (lastName customer)) (lower search) \<or>
             str_includes (phoneNumber customer) search);
           customerAddrs = filter (\<lambda>addr. customerId addr = c_id customer) addrs;
           matchesCity = (cityF = '''' \<or> cityF = ''all'' \<or>
             list_ex (\<lambda>addr. city addr = cityF) customerAddrs);
           matchesState = (stateF = '''' \<or> stateF = ''all'' \<or>
             list_ex (\<lambda>addr. state addr = stateF) customerAddrs)
       in matchesSearch \<and> matchesCity \<and> matchesState) custs"

definition filteredCustomers :: "(string \<Rightarrow> string) \<Rightarrow> 'd list_state \<Rightarrow> customer list" where
  "filteredCustomers lower s =
     filterCustomers lower (customers s) (addresses s) (searchTerm s) (cityFilter s) (stateFilter s)"

text \<open>
  \<^verbatim>\<open>Math.ceil(filteredCustomers.length / itemsPerPage)\<close> and
  \<^verbatim>\<open>filteredCustomers.slice((currentPage - 1) * itemsPerPage, currentPage * itemsPerPage)\<close>,
  first for any sequence and page, then for the state of the screen.
\<close>

definition totalPagesOf :: "'a list \<Rightarrow> int" where
  "totalPagesOf xs = Math_ceil_div (length xs) itemsPerPage"

definition pageOf :: "int \<Rightarrow> 'a list \<Rightarrow> 'a list" where
  "pageOf page xs = slice ((page - 1) * int itemsPerPage) (page * int itemsPerPage) xs"

definition totalPages :: "(string \<Rightarrow> string) \<Rightarrow> 'd list_state \<Rightarrow> int" where
  "totalPages lower s = totalPagesOf (filteredCustomers lower s)"

definition paginatedCustomers :: "(string \<Rightarrow> string) \<Rightarrow> 'd list_state \<Rightarrow> customer list" where
  "paginatedCustomers lower s = pageOf (currentPage s) (filteredCustomers lower s)"

definition getCustomerAddresses :: "'d list_state \<Rightarrow> string \<Rightarrow> 'd address list" where
  "getCustomerAddresses s ident = filter (\<lambda>addr. customerId addr = ident) (addresses s)"

subsection \<open>Handlers\<close>

definition CustomerList_handleSaveCustomer ::
  "customerData \<Rightarrow> (nat \<Rightarrow> nat) \<Rightarrow> 'd list_state \<Rightarrow> 'd list_state" where
  "CustomerList_handleSaveCustomer customerData reads s =
     (case editingCustomer s of
        Some editing \<Rightarrow>
          s\<lparr>customers :=
              updateCustomer (c_id editing) (patchOfCustomerData customerData) reads 0 (customers s),
            toasts := toasts s @ [''Customer Updated''],
            showCustomerForm := False,
            editingCustomer := None\<rparr>
      | None \<Rightarrow>
          s\<lparr>customers := newCustomer customerData reads # customers s,
            toasts := toasts s @ [''Customer Created''],
            showCustomerForm := False,
            editingCustomer := None\<rparr>)"

definition handleEditCustomer :: "customer \<Rightarrow> 'd list_state \<Rightarrow> 'd list_state" where
  "handleEditCustomer customer s = s\<lparr>editingCustomer := Some customer, showCustomerForm := True\<rparr>"

definition CustomerList_handleDeleteCustomer :: "string \<Rightarrow> bool \<Rightarrow> 'd list_state \<Rightarrow> 'd list_state" where
  "CustomerList_handleDeleteCustomer ident confirmed s =
     (if confirmed
      then s\<lparr>customers := filter (\<lambda>customer. c_id customer \<noteq> ident) (customers s),
             addresses := filter (\<lambda>addr. customerId addr \<noteq> ident) (addresses s),
             toasts := toasts s @ [''Customer Deleted'']\<rparr>
      else s)"

definition handleClearFilters :: "'d list_state \<Rightarrow> 'd list_state" where
  "handleClearFilters s =
     s\<lparr>searchTerm := '''', cityFilter := '''', stateFilter := '''', currentPage := 1\<rparr>"

subsection \<open>Events\<close>

text \<open>
  What the user can do on the list screen. The search box and the two filter choices are
  bound to \<^verbatim>\<open>setSearchTerm\<close>, \<^verbatim>\<open>setCityFilter\<close> and \<^verbatim>\<open>setStateFilter\<close>
  themselves. The page buttons are rendered when the current page has a customer and there
  is more than one page; Previous is disabled on page 1 and Next on the last page. The
  form is rendered while \<open>showCustomerForm\<close> holds. The callbacks handed to child
  components that are not part of the sources at hand are taken to be callable with any
  argument.
\<close>

datatype list_event =
    SearchChange string
  | CityFilterChange string
  | StateFilterChange string
  | ClearFilters
  | AddCustomerClick
  | EditCustomer customer
  | SaveCustomer customerData "nat \<Rightarrow> nat"
  | CancelForm
  | DeleteCustomer string bool
  | Previous
  | Next
  | Page int

definition pageButtonsShown :: "(string \<Rightarrow> string) \<Rightarrow> 'd list_state \<Rightarrow> bool" where
  "pageButtonsShown lower s = (paginatedCustomers lower s \<noteq> [] \<and> totalPages lower s > 1)"

fun list_step ::
  "(string \<Rightarrow> string) \<Rightarrow> list_event \<Rightarrow> 'd list_state \<Rightarrow> 'd list_state option" where
  "list_step lower (SearchChange v) s = Some (s\<lparr>searchTerm := v\<rparr>)"
| "list_step lower (CityFilterChange v) s = Some (s\<lparr>cityFilter := v\<rparr>)"
| "list_step lower (StateFilterChange v) s = Some (s\<lparr>stateFilter := v\<rparr>)"
| "list_step lower ClearFilters s = Some (handleClearFilters s)"
| "list_step lower AddCustomerClick s = Some (s\<lparr>showCustomerForm := True\<rparr>)"
| "list_step lower (EditCustomer c) s = Some (handleEditCustomer c s)"
| "list_step lower (SaveCustomer d reads) s =
     (if showCustomerForm s then Some (CustomerList_handleSaveCustomer d reads s) else None)"
| "list_step lower CancelForm s =
     (if showCustomerForm s
      then Some (s\<lparr>showCustomerForm := False, editingCustomer := None\<rparr>) else None)"
| "list_step lower (DeleteCustomer ident confirmed) s =
     Some (CustomerList_handleDeleteCustomer ident confirmed s)"
| "list_step lower Previous s =
     (if pageButtonsShown lower s \<and> currentPage s \<noteq> 1
      then Some (s\<lparr>currentPage := max 1 (currentPage s - 1)\<rparr>) else None)"
| "list_step lower Next s =
     (if pageButtonsShown lower s \<and> currentPage s \<noteq> totalPages lower s
      then Some (s\<lparr>currentPage := min (totalPages lower s) (currentPage s + 1)\<rparr>) else None)"
| "list_step lower (Page p) s =
     (if pageButtonsShown lower s \<and> 1 \<le> p \<and> p \<le> totalPages lower s
      then Some (s\<lparr>currentPage := p\<rparr>) else None)"

text \<open>A sequence of events, oldest first; \<open>None\<close> when one of them is not possible.\<close>

fun run ::
  "(string \<Rightarrow> string) \<Rightarrow> list_event list \<Rightarrow> 'd list_state \<Rightarrow> 'd list_state option" where
  "run lower [] s = Some s"
| "run lower (e # es) s =
     (case list_step lower e s of None \<Rightarrow> None | Some s' \<Rightarrow> run lower es s')"

inductive reachable ::
  "(string \<Rightarrow> string) \<Rightarrow> customer list \<Rightarrow> 'd address list \<Rightarrow> 'd list_state \<Rightarrow> bool"
  for lower :: "string \<Rightarrow> string"
    and mockCustomers :: "customer list" and mockAddresses :: "'d address list" where
  reachable_init:
    "reachable lower mockCustomers mockAddresses (CustomerList_init mockCustomers mockAddresses)"
| reachable_step:
    "reachable lower mockCustomers mockAddresses s \<Longrightarrow> list_step lower e s = Some s'
     \<Longrightarrow> reachable lower mockCustomers mockAddresses s'"

section \<open>The filtering contract as a predicate\<close>

text \<open>
  \<open>t\<close> is case-insensitively contained in \<open>field\<close>: after the host has folded the case
  of both, \<open>t\<close> is a contiguous part of \<open>field\<close>.
\<close>

definition containsCI :: "(string \<Rightarrow> string) \<Rightarrow> string \<Rightarrow> string \<Rightarrow> bool" where
  "containsCI lower t field = sublist (lower t) (lower field)"

text \<open>
  The three conditions in the words of the specification: the term is empty or
  case-insensitively contained in the first name, the last name or the phone number; the
  city filter is empty or \<^verbatim>\<open>all\<close>, or some address of the customer has that city; the
  same for the state filter.
\<close>

definition spec_matches ::
  "(string \<Rightarrow> string) \<Rightarrow> 'd address list \<Rightarrow> string \<Rightarrow> string \<Rightarrow> string \<Rightarrow> customer \<Rightarrow> bool" where
  "spec_matches lower addrs search cityF stateF c =
     ((search = '''' \<or> containsCI lower search (firstName c) \<or> containsCI lower search (lastName c)
         \<or> containsCI lower search (phoneNumber c))
      \<and> (cityF = '''' \<or> cityF = ''all''
         \<or> (\<exists>a \<in> set addrs. customerId a = c_id c \<and> city a = cityF))
      \<and> (stateF = '''' \<or> stateF = ''all''
         \<or> (\<exists>a \<in> set addrs. customerId a = c_id c \<and> state a = stateF)))"

definition spec_filterCustomers ::
  "(string \<Rightarrow> string) \<Rightarrow> customer list \<Rightarrow> 'd address list \<Rightarrow> string \<Rightarrow> string \<Rightarrow> string \<Rightarrow> customer list" where
  "spec_filterCustomers lower custs addrs search cityF stateF =
     filter (spec_matches lower addrs search cityF stateF) custs"

text \<open>
  The same three conditions, with the phone number compared as it is written: the term,
  unfolded, is a contiguous part of the phone number.
\<close>

definition matches ::
  "(string \<Rightarrow> string) \<Rightarrow> 'd address list \<Rightarrow> string \<Rightarrow> string \<Rightarrow> string \<Rightarrow> customer \<Rightarrow> bool" where
  "matches lower addrs search cityF stateF c =
     ((search = '''' \<or> containsCI lower search (firstName c) \<or> containsCI lower search (lastName c)
         \<or> sublist search (phoneNumber c))
      \<and> (cityF = '''' \<or> cityF = ''all''
         \<or> (\<exists>a \<in> set addrs. customerId a = c_id c \<and> city a = cityF))
      \<and> (stateF = '''' \<or> stateF = ''all''
         \<or> (\<exists>a \<in> set addrs. customerId a = c_id c \<and> state a = stateF)))"

section \<open>Sample data\<close>

text \<open>No field beyond those that the code reads.\<close>

definition noRest :: "string \<rightharpoonup> unit" where
  "noRest = Map.empty"

definition asha :: customerData where
  "asha = \<lparr>cd_firstName = ''Asha'', cd_lastName = ''Rao'', cd_phoneNumber = ''9990001111''\<rparr>"

definition bob :: customer where
  "bob = \<lparr>c_id = ''1'', firstName = ''Bob'', lastName = ''Lee'', phoneNumber = ''1-800-FLOWERS'',
          createdAt = 1000, updatedAt = 1000\<rparr>"

definition puneAddress :: "unit address" where
  "puneAddress = \<lparr>a_id = ''a1'', customerId = ''1'', city = ''Pune'', state = ''MH'',
                  isDefault = True, rest = Map.empty\<rparr>"

definition mumbaiAddress :: "unit address" where
  "mumbaiAddress = \<lparr>a_id = ''a2'', customerId = ''1'', city = ''Mumbai'', state = ''MH'',
                    isDefault = False, rest = Map.empty\<rparr>"

definition delhiAddress :: "unit address" where
  "delhiAddress = \<lparr>a_id = ''a2'', customerId = ''2'', city = ''Delhi'', state = ''DL'',
                   isDefault = True, rest = Map.empty\<rparr>"

definition mumbaiData :: "unit addressData" where
  "mumbaiData = \<lparr>ad_customerId = ''1'', ad_city = ''Mumbai'', ad_state = ''MH'',
                 ad_isDefault = True, ad_rest = Map.empty\<rparr>"

text \<open>Seven customers, numbered 1 to 7: one more than a page holds.\<close>

definition numbered :: "nat \<Rightarrow> customer" where
  "numbered n = \<lparr>c_id = toString n, firstName = ''Customer'', lastName = toString n,
                 phoneNumber = ''555'', createdAt = n, updatedAt = n\<rparr>"

definition sevenCustomers :: "customer list" where
  "sevenCustomers = map numbered [1, 2, 3, 4, 5, 6, 7]"

definition detailSample :: "unit detail_state" where
  "detailSample =
     \<lparr>d_customers = [bob], d_addresses = [puneAddress, mumbaiAddress, delhiAddress],
      showAddressForm = False, d_showCustomerForm = False, editingAddress = None,
      d_toasts = [], navigatedTo = None\<rparr>"

text \<open>
  Two clocks: one that stays on the same millisecond during a handler, and one whose
  millisecond changes between the second and the third read.
\<close>

definition steadyClock :: "nat \<Rightarrow> nat" where
  "steadyClock k = 1000"

definition tickingClock :: "nat \<Rightarrow> nat" where
  "tickingClock k = (if k < 2 then 1000 else 1001)"

definition puneData :: "unit addressData" where
  "puneData = \<lparr>ad_customerId = ''1'', ad_city = ''Pune'', ad_state = ''MH'',
               ad_isDefault = False, ad_rest = Map.empty\<rparr>"

text \<open>A clock that advances by one millisecond with every read.\<close>

definition movingClock :: "nat \<Rightarrow> nat" where
  "movingClock k = 5000 + k"

text \<open>An object with the key \<^verbatim>\<open>phoneNumber\<close> alone.\<close>

definition phoneOnly :: customerPatch where
  "phoneOnly = \<lparr>p_firstName = None, p_lastName = None, p_phoneNumber = Some ''222''\<rparr>"

text \<open>
  The detail screen of Bob before he has an address, and the same screen after the address
  form has been saved twice within one millisecond.
\<close>

definition emptyDetail :: "unit detail_state" where
  "emptyDetail =
     \<lparr>d_customers = [bob], d_addresses = [],
      showAddressForm = True, d_showCustomerForm = False, editingAddress = None,
      d_toasts = [], navigatedTo = None\<rparr>"

definition savedTwice :: "unit detail_state" where
  "savedTwice =
     handleSaveAddress mumbaiData steadyClock (handleSaveAddress puneData steadyClock emptyDetail)"

section \<open>Evaluation of characters\<close>

lemmas char_eval = char_of_def bit_0 less_eq_char_def less_char_def

lemma asciiLowerCase_sample: "asciiLowerCase ''1-800-FLOWERS'' = ''1-800-flowers''"
  by (simp add: asciiLowerCase_def asciiLowerCaseChar_def char_eval)

lemma toString_sample: "toString 1700000000123 = ''1700000000123''"
  by (simp add: digitChar_def char_eval)

section \<open>Default address\<close>

lemma defaultsOf_setDefaultAddress:
  "defaultsOf cid (setDefaultAddress cid aid prev) =
     map (\<lambda>b. b\<lparr>isDefault := True\<rparr>) (filter (\<lambda>b. customerId b = cid \<and> a_id b = aid) prev)"
  by (induction prev) (auto simp: defaultsOf_def setDefaultAddress_def)

text \<open>
  The defaults of the customer after the sweep are as many as the addresses of the
  customer that carry the given id.
\<close>

lemma count_defaults_after_sweep:
  "length (defaultsOf cid (setDefaultAddress cid aid prev))
     = length (filter (\<lambda>b. customerId b = cid \<and> a_id b = aid) prev)"
  by (simp add: defaultsOf_setDefaultAddress)

text \<open>
  Two saves of the address form within one millisecond give two addresses of the same
  customer with the same id.
\<close>

lemma savedTwice_addresses:
  "d_addresses savedTwice =
     [\<lparr>a_id = ''1000'', customerId = ''1'', city = ''Pune'', state = ''MH'',
        isDefault = False, rest = Map.empty\<rparr>,
      \<lparr>a_id = ''1000'', customerId = ''1'', city = ''Mumbai'', state = ''MH'',
        isDefault = True, rest = Map.empty\<rparr>]"
  by (simp add: savedTwice_def handleSaveAddress_def emptyDetail_def newAddress_def
      puneData_def mumbaiData_def steadyClock_def digitChar_def char_eval)

text \<open>
  Claim C1, as stated, fails: after two saves of the address form within one millisecond
  the id 1000 is the id of an address of customer 1, and setting it as the default leaves
  customer 1 with two default addresses.
\<close>

theorem setDefaultAddress_two_defaults_counterexample:
  "map a_id (d_addresses savedTwice) = [''1000'', ''1000'']
   \<and> map customerId (d_addresses savedTwice) = [''1'', ''1'']
   \<and> map isDefault (defaultsOf ''1'' (setDefaultAddress ''1'' ''1000'' (d_addresses savedTwice)))
       = [True, True]"
  by (simp add: savedTwice_addresses defaultsOf_def setDefaultAddress_def)

text \<open>
  Claim C1, amended. After \<open>setDefaultAddress customer_id addressId\<close> every address of that
  customer has \<open>isDefault\<close> equal to "its id is \<open>addressId\<close>". When exactly one address of
  that customer carries the id \<open>addressId\<close>, call it \<open>a\<close>, the default addresses of the
  customer afterwards are exactly one address: \<open>a\<close>, now flagged.
\<close>

theorem setDefaultAddress_single_default:
  "(\<forall>b \<in> set (setDefaultAddress cid aid prev).
       customerId b = cid \<longrightarrow> isDefault b = (a_id b = aid))
   \<and> (filter (\<lambda>b. customerId b = cid \<and> a_id b = aid) prev = [a]
        \<longrightarrow> defaultsOf cid (setDefaultAddress cid aid prev) = [a\<lparr>isDefault := True\<rparr>])"
proof (intro conjI impI)
  show "\<forall>b \<in> set (setDefaultAddress cid aid prev).
       customerId b = cid \<longrightarrow> isDefault b = (a_id b = aid)"
    by (auto simp: setDefaultAddress_def)
next
  assume "filter (\<lambda>b. customerId b = cid \<and> a_id b = aid) prev = [a]"
  then show "defaultsOf cid (setDefaultAddress cid aid prev) = [a\<lparr>isDefault := True\<rparr>]"
    by (simp add: defaultsOf_setDefaultAddress)
qed

text \<open>
  An instance: customer 7 has two addresses with the id a1 and one with the id a2, which
  is also the id of an address of customer 8; a2 is made the default.
\<close>

theorem setDefaultAddress_single_default_witness:
  "defaultsOf ''7''
     (setDefaultAddress ''7'' ''a2''
        [\<lparr>a_id = ''a1'', customerId = ''7'', city = ''Pune'', state = ''MH'', isDefault = True, rest = noRest\<rparr>,
         \<lparr>a_id = ''a1'', customerId = ''7'', city = ''Nashik'', state = ''MH'', isDefault = True, rest = noRest\<rparr>,
         \<lparr>a_id = ''a2'', customerId = ''7'', city = ''Mumbai'', state = ''MH'', isDefault = False, rest = noRest\<rparr>,
         \<lparr>a_id = ''a2'', customerId = ''8'', city = ''Delhi'', state = ''DL'', isDefault = True, rest = noRest\<rparr>])
   = [\<lparr>a_id = ''a2'', customerId = ''7'', city = ''Mumbai'', state = ''MH'', isDefault = True, rest = noRest\<rparr>]"
  using setDefaultAddress_single_default
    [of "''7''" "''a2''"
        "[\<lparr>a_id = ''a1'', customerId = ''7'', city = ''Pune'', state = ''MH'', isDefault = True, rest = noRest\<rparr>,
          \<lparr>a_id = ''a1'', customerId = ''7'', city = ''Nashik'', state = ''MH'', isDefault = True, rest = noRest\<rparr>,
          \<lparr>a_id = ''a2'', customerId = ''7'', city = ''Mumbai'', state = ''MH'', isDefault = False, rest = noRest\<rparr>,
          \<lparr>a_id = ''a2'', customerId = ''8'', city = ''Delhi'', state = ''DL'', isDefault = True, rest = noRest\<rparr>]"
        "\<lparr>a_id = ''a2'', customerId = ''7'', city = ''Mumbai'', state = ''MH'', isDefault = False, rest = noRest\<rparr>"]
  by simp

text \<open>
  Claim C10. \<open>setDefaultAddress\<close> keeps the length of the collection and leaves every
  address of another customer as it was, at the same position. When no address of the
  given customer has the id \<open>addressId\<close>, that customer has no default address afterwards.
\<close>

theorem setDefaultAddress_frame:
  "length (setDefaultAddress cid aid prev) = length prev
   \<and> (\<forall>i < length prev. customerId (prev ! i) \<noteq> cid
         \<longrightarrow> setDefaultAddress cid aid prev ! i = prev ! i)
   \<and> ((\<forall>b \<in> set prev. customerId b = cid \<longrightarrow> a_id b \<noteq> aid)
         \<longrightarrow> defaultsOf cid (setDefaultAddress cid aid prev) = [])"
proof (intro conjI allI impI)
  show "length (setDefaultAddress cid aid prev) = length prev"
    by (simp add: setDefaultAddress_def)
next
  fix i assume "i < length prev" and "customerId (prev ! i) \<noteq> cid"
  then show "setDefaultAddress cid aid prev ! i = prev ! i"
    by (simp add: setDefaultAddress_def)
next
  assume "\<forall>b \<in> set prev. customerId b = cid \<longrightarrow> a_id b \<noteq> aid"
  then have "filter (\<lambda>b. customerId b = cid \<and> a_id b = aid) prev = []"
    by (auto simp: filter_empty_conv)
  then show "defaultsOf cid (setDefaultAddress cid aid prev) = []"
    by (simp add: defaultsOf_setDefaultAddress)
qed

theorem setDefaultAddress_frame_witness:
  "setDefaultAddress ''7'' ''zz''
     [\<lparr>a_id = ''a1'', customerId = ''7'', city = ''Pune'', state = ''MH'', isDefault = True, rest = noRest\<rparr>,
      \<lparr>a_id = ''a3'', customerId = ''8'', city = ''Delhi'', state = ''DL'', isDefault = True, rest = noRest\<rparr>] ! 1
   = \<lparr>a_id = ''a3'', customerId = ''8'', city = ''Delhi'', state = ''DL'', isDefault = True, rest = noRest\<rparr>
   \<and> defaultsOf ''7'' (setDefaultAddress ''7'' ''zz''
     [\<lparr>a_id = ''a1'', customerId = ''7'', city = ''Pune'', state = ''MH'', isDefault = True, rest = noRest\<rparr>,
      \<lparr>a_id = ''a3'', customerId = ''8'', city = ''Delhi'', state = ''DL'', isDefault = True, rest = noRest\<rparr>]) = []"
  using setDefaultAddress_frame
    [of "''7''" "''zz''"
        "[\<lparr>a_id = ''a1'', customerId = ''7'', city = ''Pune'', state = ''MH'', isDefault = True, rest = noRest\<rparr>,
          \<lparr>a_id = ''a3'', customerId = ''8'', city = ''Delhi'', state = ''DL'', isDefault = True, rest = noRest\<rparr>]"]
  by simp

section \<open>Pagination\<close>

lemma ceiling_sixth: "\<lceil>real n / 6\<rceil> = int ((n + 5) div 6)"
proof -
  have "real n / 6 = of_int (int n) / of_int 6" by simp
  then have "\<lceil>real n / 6\<rceil> = - (- int n div 6)"
    by (simp only: ceiling_divide_eq_div)
  also have "\<dots> = int ((n + 5) div 6)" by (simp add: zdiv_int)
  finally show ?thesis .
qed

lemma totalPagesOf_div: "totalPagesOf xs = int ((length xs + 5) div 6)"
  by (simp add: totalPagesOf_def Math_ceil_div_def itemsPerPage_def ceiling_sixth)

lemma slice_nonneg:
  assumes "0 \<le> a" and "a \<le> b"
  shows "slice a b xs = take (nat (b - a)) (drop (nat a) xs)"
proof (cases "a \<le> int (length xs)")
  case inside: True
  show ?thesis
  proof (cases "b \<le> int (length xs)")
    case True
    with assms inside show ?thesis
      by (simp add: slice_def Let_def min_def)
  next
    case False
    with assms inside
    have "slice a b xs = take (nat (int (length xs) - a)) (drop (nat a) xs)"
      by (simp add: slice_def Let_def min_def)
    also have "\<dots> = drop (nat a) xs"
      using assms inside by (simp add: nat_diff_distrib)
    also have "\<dots> = take (nat (b - a)) (drop (nat a) xs)"
      using assms inside False by (simp add: nat_diff_distrib nat_le_iff)
    finally show ?thesis .
  qed
next
  case False
  with assms show ?thesis by (simp add: slice_def Let_def min_def)
qed

lemma pageOf_take_drop:
  assumes "1 \<le> page"
  shows "pageOf page xs = take 6 (drop (6 * (nat page - 1)) xs)"
proof -
  have a: "0 \<le> (page - 1) * 6" using assms by simp
  have b: "(page - 1) * 6 \<le> page * 6" by simp
  have "pageOf page xs = slice ((page - 1) * 6) (page * 6) xs"
    by (simp add: pageOf_def itemsPerPage_def)
  also have "\<dots> = take (nat (page * 6 - (page - 1) * 6)) (drop (nat ((page - 1) * 6)) xs)"
    by (rule slice_nonneg [OF a b])
  also have "page * 6 - (page - 1) * 6 = 6" by (simp add: algebra_simps)
  also have "nat ((page - 1) * 6) = 6 * (nat page - 1)"
    using assms by (simp add: nat_mult_distrib nat_diff_distrib)
  finally show ?thesis by simp
qed

lemma last_page_of_thirteen:
  assumes "length xs = 13"
  shows "take 6 (drop 12 xs) = [xs ! 12]"
proof -
  from assms have "drop 12 xs = xs ! 12 # drop 13 xs"
    by (simp add: Cons_nth_drop_Suc [symmetric])
  with assms show ?thesis by simp
qed

text \<open>
  Claim C4. With six items per page, the page count of a sequence is the length divided
  by six, rounded up; for a page number from 1 on, the page is the six elements (fewer at
  the end of the sequence) from position \<open>(page - 1) * 6\<close>. A sequence of 13 items has
  3 pages; page 3 holds the 13th item alone and page 1 the first six.
\<close>

theorem pagination_contract:
  "totalPagesOf xs = int ((length xs + 5) div 6)
   \<and> (1 \<le> page \<longrightarrow> pageOf page xs = take 6 (drop (6 * (nat page - 1)) xs))
   \<and> (length xs = 13 \<longrightarrow>
         totalPagesOf xs = 3 \<and> pageOf 3 xs = [xs ! 12] \<and> pageOf 1 xs = take 6 xs)"
proof (intro conjI impI)
  show "totalPagesOf xs = int ((length xs + 5) div 6)"
    by (rule totalPagesOf_div)
next
  assume "1 \<le> page"
  then show "pageOf page xs = take 6 (drop (6 * (nat page - 1)) xs)"
    by (rule pageOf_take_drop)
next
  assume "length xs = 13"
  then show "totalPagesOf xs = 3" by (simp add: totalPagesOf_div)
next
  assume len: "length xs = 13"
  have "pageOf 3 xs = take 6 (drop 12 xs)" by (simp add: pageOf_take_drop)
  also have "\<dots> = [xs ! 12]" by (rule last_page_of_thirteen [OF len])
  finally show "pageOf 3 xs = [xs ! 12]" .
next
  show "pageOf 1 xs = take 6 xs" by (simp add: pageOf_take_drop)
qed

theorem pagination_contract_witness:
  "totalPagesOf [1, 2, 3, 4, 5, 6, 7, 8, 9, 10, 11, 12, 13 :: nat] = 3
   \<and> pageOf 3 [1, 2, 3, 4, 5, 6, 7, 8, 9, 10, 11, 12, 13 :: nat] = [13]
   \<and> pageOf 1 [1, 2, 3, 4, 5, 6, 7, 8, 9, 10, 11, 12, 13 :: nat] = [1, 2, 3, 4, 5, 6]
   \<and> pageOf 2 [1, 2, 3, 4, 5, 6, 7, 8, 9, 10, 11, 12, 13 :: nat] = [7, 8, 9, 10, 11, 12]"
  using pagination_contract [of "[1, 2, 3, 4, 5, 6, 7, 8, 9, 10, 11, 12, 13 :: nat]" 2]
  by simp

section \<open>Facets\<close>

lemma set_newSet_aux:
  "set (foldl (\<lambda>s x. if x \<in> set s then s else s @ [x]) acc xs) = set acc \<union> set xs"
  by (induction xs arbitrary: acc) auto

lemma distinct_newSet_aux:
  "distinct acc \<Longrightarrow> distinct (foldl (\<lambda>s x. if x \<in> set s then s else s @ [x]) acc xs)"
  by (induction xs arbitrary: acc) auto

lemma set_newSet: "set (newSet xs) = set xs"
  by (simp add: newSet_def set_newSet_aux)

lemma distinct_newSet: "distinct (newSet xs)"
  by (simp add: newSet_def distinct_newSet_aux)

lemma cities_sample:
  "cities [puneAddress, delhiAddress, mumbaiAddress, puneAddress\<lparr>a_id := ''a9''\<rparr>]
     = [''Delhi'', ''Mumbai'', ''Pune'']"
  by (simp add: cities_def newSet_def puneAddress_def delhiAddress_def mumbaiAddress_def
      char_eval list_le_def list_less_def)

text \<open>
  Claim C8. The city facet and the state facet are sorted ascending, free of duplicates,
  and hold exactly the city values (the state values) of all addresses of the collection.
\<close>

theorem facets_sorted_distinct:
  "sorted (cities addrs) \<and> distinct (cities addrs) \<and> set (cities addrs) = city ` set addrs
   \<and> sorted (states addrs) \<and> distinct (states addrs) \<and> set (states addrs) = state ` set addrs"
  by (simp add: cities_def states_def set_newSet distinct_newSet)

section \<open>Filtering\<close>

lemma str_includes_sublist: "str_includes s t \<longleftrightarrow> sublist t s"
  by (induction s) (auto simp: sublist_Cons_right)

lemma list_ex_owned:
  "list_ex P (filter (\<lambda>addr. customerId addr = ident) addrs)
     \<longleftrightarrow> (\<exists>a \<in> set addrs. customerId a = ident \<and> P a)"
  by (auto simp: list_ex_iff)

lemma filterCustomers_matches:
  "filterCustomers lower custs addrs search cityF stateF
     = filter (matches lower addrs search cityF stateF) custs"
  unfolding filterCustomers_def matches_def containsCI_def Let_def
  by (simp only: str_includes_sublist list_ex_owned)

lemma filterCustomers_empty: "filterCustomers lower custs addrs '''' '''' '''' = custs"
  by (simp add: filterCustomers_def)

text \<open>
  Claim C3, as stated, fails: a customer whose phone number holds the term in another
  case is kept by the contract and dropped by the code. All strings of the example are
  ASCII, where the host folds the letters A to Z.
\<close>

theorem filterCustomers_phone_case_counterexample:
  "filterCustomers asciiLowerCase [bob] ([] :: unit address list) ''flowers'' '''' ''''
     \<noteq> spec_filterCustomers asciiLowerCase [bob] ([] :: unit address list) ''flowers'' '''' ''''"
proof -
  have "filterCustomers asciiLowerCase [bob] ([] :: unit address list) ''flowers'' '''' '''' = []"
    by (simp add: filterCustomers_def bob_def asciiLowerCase_def asciiLowerCaseChar_def char_eval)
  moreover have "containsCI asciiLowerCase ''flowers'' ''1-800-FLOWERS''"
    by (simp add: containsCI_def asciiLowerCase_def asciiLowerCaseChar_def char_eval sublist_code)
  then have "spec_filterCustomers asciiLowerCase [bob] ([] :: unit address list) ''flowers'' '''' ''''
      = [bob]"
    by (simp add: spec_filterCustomers_def spec_matches_def bob_def)
  ultimately show ?thesis by simp
qed

text \<open>
  Claim C3, amended. Whatever function the host's \<^verbatim>\<open>toLowerCase\<close> is,
  \<open>filterCustomers\<close> returns, in their order, exactly the customers for which: the term is
  empty, or case-insensitively contained in the first name or the last name, or contained
  as written in the phone number; and the city filter is empty or \<^verbatim>\<open>all\<close> or the city
  of some address of the customer; and the same for the state filter. With an empty term
  and empty filters it returns the whole collection.
\<close>

theorem filterCustomers_contract:
  "filterCustomers lower custs addrs search cityF stateF
     = filter (matches lower addrs search cityF stateF) custs
   \<and> subseq (filterCustomers lower custs addrs search cityF stateF) custs
   \<and> filterCustomers lower custs addrs '''' '''' '''' = custs"
proof (intro conjI)
  show "filterCustomers lower custs addrs search cityF stateF
          = filter (matches lower addrs search cityF stateF) custs"
    by (rule filterCustomers_matches)
next
  show "subseq (filterCustomers lower custs addrs search cityF stateF) custs"
    by (simp add: filterCustomers_def)
next
  show "filterCustomers lower custs addrs '''' '''' '''' = custs"
    by (rule filterCustomers_empty)
qed

text \<open>
  Beyond ASCII, for any host function: a customer whose first name the host folds to
  the same string as the term is found.
\<close>

lemma filterCustomers_host_folding:
  assumes "lower name = lower search" and "search \<noteq> ''''"
  shows "filterCustomers lower [c\<lparr>firstName := name\<rparr>] addrs search '''' ''''
          = [c\<lparr>firstName := name\<rparr>]"
  using assms by (simp add: filterCustomers_matches matches_def containsCI_def)

section \<open>Customers\<close>

lemma one_element: "length xs = 1 \<Longrightarrow> xs = [xs ! 0]"
  by (cases xs) simp_all

lemma three_elements: "length xs = 3 \<Longrightarrow> xs = [xs ! 0, xs ! 1, xs ! 2]"
  by (auto simp: list_eq_iff_nth_eq less_Suc_eq numeral_3_eq_3 numeral_2_eq_2)

lemma updateCustomer_length: "length (updateCustomer ident p reads k prev) = length prev"
  by (induction prev arbitrary: k) simp_all

text \<open>
  The customer at position \<open>i\<close> after the update: when its id is the given one, the merge
  of the customer that was there, stamped with the read of the clock that follows the
  reads made for the matching customers before it.
\<close>

lemma updateCustomer_nth:
  "i < length prev \<Longrightarrow>
     updateCustomer ident p reads k prev ! i =
       (if c_id (prev ! i) = ident
        then mergeCustomer (prev ! i) p
               (reads (k + length (filter (\<lambda>c. c_id c = ident) (take i prev))))
        else prev ! i)"
proof (induction prev arbitrary: k i)
  case Nil
  then show ?case by simp
next
  case (Cons c prev)
  show ?case
  proof (cases i)
    case 0
    then show ?thesis by simp
  next
    case (Suc j)
    with Cons.prems have j: "j < length prev" by simp
    show ?thesis
    proof (cases "c_id c = ident")
      case True
      with Suc Cons.IH [OF j, of "Suc k"] show ?thesis by simp
    next
      case False
      with Suc Cons.IH [OF j, of k] show ?thesis by simp
    qed
  qed
qed

lemma updateCustomer_absent:
  "\<forall>c \<in> set prev. c_id c \<noteq> ident \<Longrightarrow> updateCustomer ident p reads k prev = prev"
  by (induction prev arbitrary: k) simp_all

lemma updateCustomer_ids:
  "map c_id (updateCustomer ident p reads k prev) = map c_id prev
   \<and> map createdAt (updateCustomer ident p reads k prev) = map createdAt prev"
  by (induction prev arbitrary: k) (simp_all add: mergeCustomer_def)

text \<open>
  Claim C7. \<open>updateCustomer\<close> keeps the length of the collection. The customer at each
  position is either the one that was there (when its id is not the given one), or the one
  that was there with the fields that the data holds written over it and \<open>updatedAt\<close> set
  to the clock as read for that customer; the fields that the data does not hold, the id
  and \<open>createdAt\<close> stay as they were. With the id absent the collection is returned as it
  was. Both screens apply exactly this updater to their customers, with the data of their
  form.
\<close>

theorem updateCustomer_frame:
  "length (updateCustomer ident p reads k prev) = length prev
   \<and> (\<forall>i < length prev.
         updateCustomer ident p reads k prev ! i =
           (if c_id (prev ! i) = ident
            then (prev ! i)
              \<lparr>firstName := (case p_firstName p of Some v \<Rightarrow> v | None \<Rightarrow> firstName (prev ! i)),
               lastName := (case p_lastName p of Some v \<Rightarrow> v | None \<Rightarrow> lastName (prev ! i)),
               phoneNumber := (case p_phoneNumber p of Some v \<Rightarrow> v | None \<Rightarrow> phoneNumber (prev ! i)),
               updatedAt := reads (k + length (filter (\<lambda>c. c_id c = ident) (take i prev)))\<rparr>
            else prev ! i))
   \<and> map c_id (updateCustomer ident p reads k prev) = map c_id prev
   \<and> map createdAt (updateCustomer ident p reads k prev) = map createdAt prev
   \<and> ((\<forall>c \<in> set prev. c_id c \<noteq> ident) \<longrightarrow> updateCustomer ident p reads k prev = prev)
   \<and> d_customers (CustomerDetail_handleUpdateCustomer customer d reads ds)
       = updateCustomer (c_id customer) (patchOfCustomerData d) reads 0 (d_customers ds)
   \<and> (editingCustomer ls = Some editing \<longrightarrow>
         customers (CustomerList_handleSaveCustomer d reads ls)
           = updateCustomer (c_id editing) (patchOfCustomerData d) reads 0 (customers ls))"
proof (intro conjI allI impI)
  show "length (updateCustomer ident p reads k prev) = length prev"
    by (rule updateCustomer_length)
next
  fix i assume "i < length prev"
  then show "updateCustomer ident p reads k prev ! i =
      (if c_id (prev ! i) = ident
       then (prev ! i)
         \<lparr>firstName := (case p_firstName p of Some v \<Rightarrow> v | None \<Rightarrow> firstName (prev ! i)),
          lastName := (case p_lastName p of Some v \<Rightarrow> v | None \<Rightarrow> lastName (prev ! i)),
          phoneNumber := (case p_phoneNumber p of Some v \<Rightarrow> v | None \<Rightarrow> phoneNumber (prev ! i)),
          updatedAt := reads (k + length (filter (\<lambda>c. c_id c = ident) (take i prev)))\<rparr>
       else prev ! i)"
    by (simp add: updateCustomer_nth mergeCustomer_def)
next
  show "map c_id (updateCustomer ident p reads k prev) = map c_id prev"
    by (simp add: updateCustomer_ids)
next
  show "map createdAt (updateCustomer ident p reads k prev) = map createdAt prev"
    by (simp add: updateCustomer_ids)
next
  assume "\<forall>c \<in> set prev. c_id c \<noteq> ident"
  then show "updateCustomer ident p reads k prev = prev"
    by (rule updateCustomer_absent)
next
  show "d_customers (CustomerDetail_handleUpdateCustomer customer d reads ds)
      = updateCustomer (c_id customer) (patchOfCustomerData d) reads 0 (d_customers ds)"
    by (simp add: CustomerDetail_handleUpdateCustomer_def)
next
  assume "editingCustomer ls = Some editing"
  then show "customers (CustomerList_handleSaveCustomer d reads ls)
      = updateCustomer (c_id editing) (patchOfCustomerData d) reads 0 (customers ls)"
    by (simp add: CustomerList_handleSaveCustomer_def)
qed

text \<open>
  An instance: an object with the phone number alone is written over a collection in
  which two customers carry the id 1, while the clock advances with every read; then an
  id that no customer carries; then the form of the list screen saved for Bob.
\<close>

theorem updateCustomer_frame_witness:
  "updateCustomer ''1'' phoneOnly movingClock 0 [bob, numbered 2, bob\<lparr>firstName := ''Rob''\<rparr>]
     = [\<lparr>c_id = ''1'', firstName = ''Bob'', lastName = ''Lee'', phoneNumber = ''222'',
         createdAt = 1000, updatedAt = 5000\<rparr>,
        numbered 2,
        \<lparr>c_id = ''1'', firstName = ''Rob'', lastName = ''Lee'', phoneNumber = ''222'',
         createdAt = 1000, updatedAt = 5001\<rparr>]
   \<and> updateCustomer ''9'' phoneOnly movingClock 0 [bob, numbered 2] = [bob, numbered 2]
   \<and> customers (CustomerList_handleSaveCustomer asha steadyClock
        (handleEditCustomer bob (CustomerList_init [bob] ([] :: unit address list))))
     = [\<lparr>c_id = ''1'', firstName = ''Asha'', lastName = ''Rao'', phoneNumber = ''9990001111'',
         createdAt = 1000, updatedAt = 1000\<rparr>]"
proof -
  let ?prev = "[bob, numbered 2, bob\<lparr>firstName := ''Rob''\<rparr>]"
  let ?ls = "handleEditCustomer bob (CustomerList_init [bob] ([] :: unit address list))"
  note hit = updateCustomer_frame [where prev = ?prev and ident = "''1''" and p = phoneOnly
      and reads = movingClock and k = 0]
  note miss = updateCustomer_frame [where prev = "[bob, numbered 2]" and ident = "''9''"
      and p = phoneOnly and reads = movingClock and k = 0]
  note form = updateCustomer_frame [where prev = "[bob]" and ident = "''1''"
      and p = "patchOfCustomerData asha" and reads = steadyClock and k = 0
      and d = asha and editing = bob and ls = ?ls]
  have ids: "c_id bob = ''1''" "c_id (numbered 2) = ''2''"
    by (simp_all add: bob_def numbered_def digitChar_def char_eval)
  have "length (updateCustomer ''1'' phoneOnly movingClock 0 ?prev) = length ?prev"
    by (rule hit [THEN conjunct1])
  also have "\<dots> = 3" by simp
  finally have len: "length (updateCustomer ''1'' phoneOnly movingClock 0 ?prev) = 3" .
  have at0: "updateCustomer ''1'' phoneOnly movingClock 0 ?prev ! 0
      = \<lparr>c_id = ''1'', firstName = ''Bob'', lastName = ''Lee'', phoneNumber = ''222'',
         createdAt = 1000, updatedAt = 5000\<rparr>"
    using hit [THEN conjunct2, THEN conjunct1, rule_format, of 0] ids
    by (simp add: phoneOnly_def movingClock_def bob_def)
  have at1: "updateCustomer ''1'' phoneOnly movingClock 0 ?prev ! 1 = numbered 2"
    using hit [THEN conjunct2, THEN conjunct1, rule_format, of 1] ids by simp
  have at2: "updateCustomer ''1'' phoneOnly movingClock 0 ?prev ! 2
      = \<lparr>c_id = ''1'', firstName = ''Rob'', lastName = ''Lee'', phoneNumber = ''222'',
         createdAt = 1000, updatedAt = 5001\<rparr>"
    using hit [THEN conjunct2, THEN conjunct1, rule_format, of 2] ids
    by (simp add: phoneOnly_def movingClock_def bob_def)
  have whole: "updateCustomer ''1'' phoneOnly movingClock 0 ?prev
      = [\<lparr>c_id = ''1'', firstName = ''Bob'', lastName = ''Lee'', phoneNumber = ''222'',
          createdAt = 1000, updatedAt = 5000\<rparr>,
         numbered 2,
         \<lparr>c_id = ''1'', firstName = ''Rob'', lastName = ''Lee'', phoneNumber = ''222'',
          createdAt = 1000, updatedAt = 5001\<rparr>]"
    using three_elements [OF len] by (simp only: at0 at1 at2)
  have "\<forall>c \<in> set [bob, numbered 2]. c_id c \<noteq> ''9''" using ids by simp
  with miss have absent: "updateCustomer ''9'' phoneOnly movingClock 0 [bob, numbered 2]
      = [bob, numbered 2]" by blast
  have "editingCustomer ?ls = Some bob" by (simp add: handleEditCustomer_def)
  with form have "customers (CustomerList_handleSaveCustomer asha steadyClock ?ls)
      = updateCustomer (c_id bob) (patchOfCustomerData asha) steadyClock 0 (customers ?ls)"
    by blast
  moreover have "customers ?ls = [bob]"
    by (simp add: handleEditCustomer_def CustomerList_init_def)
  ultimately have viaUpdater: "customers (CustomerList_handleSaveCustomer asha steadyClock ?ls)
      = updateCustomer ''1'' (patchOfCustomerData asha) steadyClock 0 [bob]"
    using ids by (simp only:)
  have at0': "updateCustomer ''1'' (patchOfCustomerData asha) steadyClock 0 [bob] ! 0
      = \<lparr>c_id = ''1'', firstName = ''Asha'', lastName = ''Rao'', phoneNumber = ''9990001111'',
         createdAt = 1000, updatedAt = 1000\<rparr>"
    using form [THEN conjunct2, THEN conjunct1, rule_format, of 0] ids
    by (simp add: patchOfCustomerData_def asha_def steadyClock_def bob_def)
  have "length (updateCustomer ''1'' (patchOfCustomerData asha) steadyClock 0 [bob]) = length [bob]"
    by (rule form [THEN conjunct1])
  then have "length (updateCustomer ''1'' (patchOfCustomerData asha) steadyClock 0 [bob]) = 1"
    by simp
  from one_element [OF this]
  have "updateCustomer ''1'' (patchOfCustomerData asha) steadyClock 0 [bob]
      = [\<lparr>c_id = ''1'', firstName = ''Asha'', lastName = ''Rao'', phoneNumber = ''9990001111'',
          createdAt = 1000, updatedAt = 1000\<rparr>]"
    by (simp only: at0')
  with viaUpdater have saved: "customers (CustomerList_handleSaveCustomer asha steadyClock ?ls)
      = [\<lparr>c_id = ''1'', firstName = ''Asha'', lastName = ''Rao'', phoneNumber = ''9990001111'',
          createdAt = 1000, updatedAt = 1000\<rparr>]"
    by (simp only:)
  from whole absent saved show ?thesis by blast
qed

subsection \<open>Creation\<close>

lemma createCustomer_prepends:
  "editingCustomer s = None \<Longrightarrow>
     customers (CustomerList_handleSaveCustomer d reads s) = newCustomer d reads # customers s"
  by (simp add: CustomerList_handleSaveCustomer_def)

lemma newCustomer_stamps:
  "createdAt (newCustomer d reads) = reads 1 \<and> updatedAt (newCustomer d reads) = reads 2"
  by (simp add: newCustomer_def)

lemma newCustomer_steady:
  "reads 1 = reads 2 \<Longrightarrow> createdAt (newCustomer d reads) = updatedAt (newCustomer d reads)"
  by (simp add: newCustomer_def)

lemma updateCustomer_stamps:
  assumes "i < length prev"
  shows "createdAt (updateCustomer ident p reads k prev ! i) = createdAt (prev ! i)"
    and "c_id (prev ! i) = ident \<Longrightarrow>
           updatedAt (updateCustomer ident p reads k prev ! i)
             = reads (k + length (filter (\<lambda>c. c_id c = ident) (take i prev)))"
    and "\<forall>j. updatedAt (prev ! i) \<le> reads j \<Longrightarrow>
           updatedAt (prev ! i) \<le> updatedAt (updateCustomer ident p reads k prev ! i)"
  using assms by (simp_all add: updateCustomer_nth mergeCustomer_def)

text \<open>
  Claim C6 at the failing input: the creation of Asha Rao while the millisecond changes
  between the read that stamps \<open>createdAt\<close> and the read that stamps \<open>updatedAt\<close>. The
  customer is put at the front of the collection with two different timestamps.
\<close>

theorem createCustomer_two_clock_reads:
  "customers (CustomerList_handleSaveCustomer asha tickingClock
      (CustomerList_init [bob] ([] :: unit address list)))
   = [\<lparr>c_id = ''1000'', firstName = ''Asha'', lastName = ''Rao'', phoneNumber = ''9990001111'',
       createdAt = 1000, updatedAt = 1001\<rparr>, bob]"
  by (simp add: CustomerList_handleSaveCustomer_def CustomerList_init_def newCustomer_def
      asha_def tickingClock_def digitChar_def char_eval)

section \<open>Addresses\<close>

text \<open>
  With no address being edited, \<open>handleSaveAddress\<close> appends one address, made of the
  form data; the addresses that were there are the first part of the new collection,
  unchanged, their \<open>isDefault\<close> flags included.
\<close>

lemma createAddress_appends:
  "editingAddress s = None \<Longrightarrow>
     d_addresses (handleSaveAddress addressData reads s)
       = d_addresses s @ [newAddress addressData reads]
     \<and> take (length (d_addresses s)) (d_addresses (handleSaveAddress addressData reads s))
         = d_addresses s
     \<and> customerId (newAddress addressData reads) = ad_customerId addressData
     \<and> isDefault (newAddress addressData reads) = ad_isDefault addressData"
  by (simp add: handleSaveAddress_def newAddress_def)

text \<open>The id of the new address is the clock, whatever ids the collection holds.\<close>

lemma createAddress_id_from_clock:
  "editingAddress s = None \<Longrightarrow>
     map a_id (d_addresses (handleSaveAddress addressData reads s))
       = map a_id (d_addresses s) @ [toString (reads 0)]"
  by (simp add: handleSaveAddress_def newAddress_def)

text \<open>
  Claim C9 at the failing input: the address form saved twice within one millisecond. The
  second address is appended with the id that the first one already carries.
\<close>

theorem createAddress_id_collides:
  "map a_id (d_addresses (handleSaveAddress puneData steadyClock emptyDetail)) = [''1000'']
   \<and> a_id (newAddress mumbaiData steadyClock) = ''1000''
   \<and> map a_id (d_addresses (handleSaveAddress mumbaiData steadyClock
        (handleSaveAddress puneData steadyClock emptyDetail))) = [''1000'', ''1000'']"
  by (simp add: handleSaveAddress_def emptyDetail_def newAddress_def
      puneData_def mumbaiData_def steadyClock_def digitChar_def char_eval)

section \<open>Deleting a customer\<close>

lemma CustomerList_delete_cascades:
  "customers (CustomerList_handleDeleteCustomer ident True s)
     = filter (\<lambda>c. c_id c \<noteq> ident) (customers s)
   \<and> addresses (CustomerList_handleDeleteCustomer ident True s)
     = filter (\<lambda>a. customerId a \<noteq> ident) (addresses s)
   \<and> filter (\<lambda>c. c_id c = ident) (customers (CustomerList_handleDeleteCustomer ident True s)) = []
   \<and> filter (\<lambda>a. customerId a = ident) (addresses (CustomerList_handleDeleteCustomer ident True s)) = []"
  by (simp add: CustomerList_handleDeleteCustomer_def filter_empty_conv)

lemma CustomerList_delete_declined:
  "CustomerList_handleDeleteCustomer ident False s = s"
  by (simp add: CustomerList_handleDeleteCustomer_def)

lemma CustomerDetail_delete_collections:
  "d_customers (CustomerDetail_handleDeleteCustomer confirmed s) = d_customers s
   \<and> d_addresses (CustomerDetail_handleDeleteCustomer confirmed s) = d_addresses s"
  by (simp add: CustomerDetail_handleDeleteCustomer_def)

text \<open>
  Claim C2 at the failing input: the Delete button of the detail screen, confirmed, for a
  customer with two addresses. The screen announces the deletion and navigates to the
  list; the customer and both of its addresses are still in the collections.
\<close>

theorem CustomerDetail_delete_removes_nothing:
  "d_customers (CustomerDetail_handleDeleteCustomer True detailSample) = [bob]
   \<and> d_addresses (CustomerDetail_handleDeleteCustomer True detailSample)
       = [puneAddress, mumbaiAddress, delhiAddress]
   \<and> customerAddresses ''1'' (CustomerDetail_handleDeleteCustomer True detailSample)
       = [puneAddress, mumbaiAddress]
   \<and> CustomerDetail_customer ''1'' (CustomerDetail_handleDeleteCustomer True detailSample) = Some bob
   \<and> d_toasts (CustomerDetail_handleDeleteCustomer True detailSample) = [''Customer Deleted'']
   \<and> navigatedTo (CustomerDetail_handleDeleteCustomer True detailSample) = Some ''/''"
  by (simp add: CustomerDetail_handleDeleteCustomer_def detailSample_def customerAddresses_def
      CustomerDetail_customer_def bob_def puneAddress_def mumbaiAddress_def delhiAddress_def)

section \<open>The page of the list screen\<close>

lemma run_reachable:
  "reachable lower mc ma s \<Longrightarrow> run lower es s = Some s' \<Longrightarrow> reachable lower mc ma s'"
proof (induction es arbitrary: s)
  case Nil
  then show ?case by simp
next
  case (Cons e es)
  from Cons.prems(2) obtain s1 where s1: "list_step lower e s = Some s1" and rest: "run lower es s1 = Some s'"
    by (auto split: option.splits)
  from Cons.prems(1) s1 have "reachable lower mc ma s1" by (rule reachable_step)
  then show ?case using rest by (rule Cons.IH)
qed

lemma list_step_page_positive:
  assumes "list_step lower e s = Some s'" and "1 \<le> currentPage s"
  shows "1 \<le> currentPage s'"
proof (cases e)
  case Next
  with assms have "1 < totalPages lower s" and "currentPage s' = min (totalPages lower s) (currentPage s + 1)"
    by (auto simp: pageButtonsShown_def split: if_splits)
  with assms(2) show ?thesis by simp
next
  case (SaveCustomer d reads)
  with assms show ?thesis
    by (auto simp: CustomerList_handleSaveCustomer_def split: if_splits option.splits)
next
  case (DeleteCustomer ident confirmed)
  with assms show ?thesis
    by (auto simp: CustomerList_handleDeleteCustomer_def split: if_splits)
qed (use assms in \<open>auto simp: handleClearFilters_def handleEditCustomer_def split: if_splits\<close>)

text \<open>The screen never asks for a page below 1.\<close>

lemma reachable_page_positive: "reachable lower mc ma s \<Longrightarrow> 1 \<le> currentPage s"
proof (induction rule: reachable.induct)
  case reachable_init
  show ?case by (simp add: CustomerList_init_def)
next
  case (reachable_step s e s')
  then show ?case by (simp add: list_step_page_positive)
qed

lemma handleClearFilters_resets_page:
  "currentPage (handleClearFilters s) = 1 \<and> searchTerm (handleClearFilters s) = ''''
   \<and> cityFilter (handleClearFilters s) = '''' \<and> stateFilter (handleClearFilters s) = ''''"
  by (simp add: handleClearFilters_def)

lemma filter_setters_keep_page:
  "list_step lower (SearchChange v) s = Some s' \<or> list_step lower (CityFilterChange v) s = Some s'
     \<or> list_step lower (StateFilterChange v) s = Some s' \<Longrightarrow> currentPage s' = currentPage s"
  by auto

text \<open>
  Whatever the initial data, page 2 can be reached: add seven customers and press the
  button of page 2.
\<close>

lemma add_customers:
  assumes "editingCustomer s = None"
  shows "\<exists>s'. run lower (concat (replicate n [AddCustomerClick, SaveCustomer d reads])) s = Some s'
     \<and> length (customers s') = n + length (customers s)
     \<and> addresses s' = addresses s \<and> searchTerm s' = searchTerm s
     \<and> cityFilter s' = cityFilter s \<and> stateFilter s' = stateFilter s
     \<and> currentPage s' = currentPage s \<and> editingCustomer s' = None"
  using assms
proof (induction n arbitrary: s)
  case 0
  then show ?case by simp
next
  case (Suc n)
  let ?s1 = "s\<lparr>customers := newCustomer d reads # customers s,
               toasts := toasts s @ [''Customer Created''],
               showCustomerForm := False, editingCustomer := None\<rparr>"
  have "editingCustomer ?s1 = None" by simp
  from Suc.IH [OF this] obtain s' where
    s': "run lower (concat (replicate n [AddCustomerClick, SaveCustomer d reads])) ?s1 = Some s'"
      "length (customers s') = n + length (customers ?s1)"
      "addresses s' = addresses ?s1" "searchTerm s' = searchTerm ?s1"
      "cityFilter s' = cityFilter ?s1" "stateFilter s' = stateFilter ?s1"
      "currentPage s' = currentPage ?s1" "editingCustomer s' = None"
    by blast
  have "run lower (concat (replicate (Suc n) [AddCustomerClick, SaveCustomer d reads])) s
      = run lower (concat (replicate n [AddCustomerClick, SaveCustomer d reads])) ?s1"
    using Suc.prems by (simp add: CustomerList_handleSaveCustomer_def)
  with s' show ?case by simp
qed

lemma page_two_reachable: "\<exists>s. reachable lower mc ma s \<and> currentPage s = 2"
proof -
  let ?s0 = "CustomerList_init mc ma"
  have "editingCustomer ?s0 = None" by (simp add: CustomerList_init_def)
  from add_customers [OF this, where n = 7 and d = asha and reads = steadyClock and lower = lower] obtain s where
    s: "run lower (concat (replicate 7 [AddCustomerClick, SaveCustomer asha steadyClock])) ?s0 = Some s"
      "length (customers s) = 7 + length (customers ?s0)"
      "searchTerm s = searchTerm ?s0"
      "cityFilter s = cityFilter ?s0" "stateFilter s = stateFilter ?s0"
      "currentPage s = currentPage ?s0"
    by blast
  have r: "reachable lower mc ma s"
    using reachable_init s(1) by (rule run_reachable)
  have f: "filteredCustomers lower s = customers s"
    using s by (simp add: filteredCustomers_def CustomerList_init_def filterCustomers_empty)
  have t: "2 \<le> totalPages lower s"
    using s(2) by (simp add: totalPages_def f totalPagesOf_div)
  have "currentPage s = 1" using s by (simp add: CustomerList_init_def)
  moreover have "customers s \<noteq> []" using s(2) by auto
  ultimately have "paginatedCustomers lower s \<noteq> []"
    by (simp add: paginatedCustomers_def f pageOf_take_drop)
  with t have "list_step lower (Page 2) s = Some (s\<lparr>currentPage := 2\<rparr>)"
    by (simp add: pageButtonsShown_def)
  with r have "reachable lower mc ma (s\<lparr>currentPage := 2\<rparr>)" by (rule reachable_step)
  then show ?thesis by (intro exI [of _ "s\<lparr>currentPage := 2\<rparr>"]) simp
qed

lemma filter_change_off_page_one:
  "\<exists>s s'. reachable lower mc ma s \<and> list_step lower (SearchChange v) s = Some s' \<and> currentPage s' = 2"
proof -
  obtain s where "reachable lower mc ma s" and "currentPage s = 2"
    using page_two_reachable by blast
  then show ?thesis by (intro exI [of _ s] exI [of _ "s\<lparr>searchTerm := v\<rparr>"]) simp
qed

lemma seven_on_page_two:
  "list_step lower (Page 2) (CustomerList_init sevenCustomers ([] :: unit address list))
     = Some ((CustomerList_init sevenCustomers ([] :: unit address list))\<lparr>currentPage := 2\<rparr>)"
proof -
  let ?s = "CustomerList_init sevenCustomers ([] :: unit address list)"
  have f: "filteredCustomers lower ?s = sevenCustomers"
    by (simp add: filteredCustomers_def CustomerList_init_def filterCustomers_empty)
  then have t: "totalPages lower ?s = 2"
    by (simp add: totalPages_def totalPagesOf_div sevenCustomers_def)
  have "currentPage ?s = 1" by (simp add: CustomerList_init_def)
  with f have "paginatedCustomers lower ?s \<noteq> []"
    by (simp add: paginatedCustomers_def pageOf_take_drop sevenCustomers_def)
  with t have "pageButtonsShown lower ?s" by (simp add: pageButtonsShown_def)
  with t show ?thesis by simp
qed

text \<open>
  Claim C5 at the failing input: seven customers, the user on page 2. Typing a search
  term, choosing a city and choosing a state each change the filter and leave the current
  page at 2, whatever function the host's \<^verbatim>\<open>toLowerCase\<close> is.
\<close>

theorem filter_change_keeps_page_two:
  "map_option (\<lambda>s. (searchTerm s, currentPage s))
     (run lower [Page 2, SearchChange ''7''] (CustomerList_init sevenCustomers ([] :: unit address list)))
     = Some (''7'', 2)
   \<and> map_option (\<lambda>s. (cityFilter s, currentPage s))
     (run lower [Page 2, CityFilterChange ''Pune''] (CustomerList_init sevenCustomers ([] :: unit address list)))
     = Some (''Pune'', 2)
   \<and> map_option (\<lambda>s. (stateFilter s, currentPage s))
     (run lower [Page 2, StateFilterChange ''MH''] (CustomerList_init sevenCustomers ([] :: unit address list)))
     = Some (''MH'', 2)"
proof -
  let ?s = "CustomerList_init sevenCustomers ([] :: unit address list)"
  have "list_step lower (Page 2) ?s = Some (?s\<lparr>currentPage := 2\<rparr>)"
    by (rule seven_on_page_two)
  then show ?thesis by simp
qed

text \<open>
  What the user then sees: one customer matches the term, and the page shown is empty
  (all strings here are ASCII).
\<close>

lemma stale_page_is_empty:
  assumes "run asciiLowerCase [Page 2, SearchChange ''7''] (CustomerList_init sevenCustomers ([] :: unit address list))
     = Some s"
  shows "filteredCustomers asciiLowerCase s = [numbered 7]" and "paginatedCustomers asciiLowerCase s = []"
proof -
  let ?s = "CustomerList_init sevenCustomers ([] :: unit address list)"
  have "list_step asciiLowerCase (Page 2) ?s = Some (?s\<lparr>currentPage := 2\<rparr>)"
    by (rule seven_on_page_two)
  with assms have s: "s = ?s\<lparr>currentPage := 2, searchTerm := ''7''\<rparr>" by simp
  show f: "filteredCustomers asciiLowerCase s = [numbered 7]"
    unfolding s
    by (simp add: filteredCustomers_def CustomerList_init_def filterCustomers_def
        sevenCustomers_def numbered_def asciiLowerCase_def asciiLowerCaseChar_def digitChar_def char_eval)
  have "currentPage s = 2" by (simp add: s)
  with f show "paginatedCustomers asciiLowerCase s = []"
    by (simp add: paginatedCustomers_def pageOf_take_drop)
qed

end
